theory Spec2Isabelle
  imports Main "HOL-Library.Sublist" "HOL-Library.Char_ord" "HOL-Library.List_Lexorder"
begin

section \<open>Python values used by the spiders\<close>

text \<open>
  Python strings are modelled as \<open>string\<close>; a character stands for a code point below 256,
  which covers every literal of the source (one heading has two characters outside
  ASCII, both below 256).
\<close>

text \<open>\<open>sep.join(xs)\<close>\<close>

fun join :: "string \<Rightarrow> string list \<Rightarrow> string" where
  "join sep [] = []"
| "join sep [x] = x"
| "join sep (x # y # ys) = x @ sep @ join sep (y # ys)"

text \<open>How an f-string or \<open>str.format\<close> renders a value that may be \<open>None\<close>.\<close>

fun py_str :: "string option \<Rightarrow> string" where
  "py_str None = ''None''"
| "py_str (Some s) = s"

text \<open>\<open>x or ''\<close> for a value that is a string or \<open>None\<close>.\<close>

fun or_empty :: "string option \<Rightarrow> string" where
  "or_empty None = []"
| "or_empty (Some s) = s"

text \<open>The exceptions the modelled code can raise.\<close>

datatype error = AttributeError | KeyError | TypeError | ValueError

section \<open>XML documents and the XPath queries of the source\<close>

text \<open>
  A response body is an XML document: elements with a name and children, and text nodes.
  Attributes, comments and namespaces play no part in any query of the source.
\<close>

datatype xml = Elem string "xml list" | Txt string

text \<open>
  A location step: a child element by name, or \<open>text()\<close>. A path is absolute
  (\<open>//a/b/text()\<close>: the steps may start anywhere in the document) or relative to the
  context node (\<open>a/b/text()\<close>).
\<close>

datatype step = Child string | TextNode

datatype xpath = Abs "step list" | Rel "step list"

text \<open>
  Every node at or below a node, in document order, each with the chain of steps that
  leads to it.
\<close>

fun walk :: "step list \<Rightarrow> xml \<Rightarrow> (step list \<times> xml) list" where
  "walk p (Txt t) = [(p @ [TextNode], Txt t)]"
| "walk p (Elem n cs) = (p @ [Child n], Elem n cs) # concat (map (walk (p @ [Child n])) cs)"

fun below :: "xml \<Rightarrow> (step list \<times> xml) list" where
  "below (Txt t) = []"
| "below (Elem n cs) = concat (map (walk []) cs)"

text \<open>
  A selector is a node together with the document it belongs to. An absolute path on a
  selector is evaluated on the selector's document, not on its node: this is how lxml,
  hence scrapy, evaluates \<open>sel.xpath('//x')\<close>.
\<close>

record selector =
  sel_root :: xml
  sel_node :: xml

fun select :: "selector \<Rightarrow> xpath \<Rightarrow> selector list" where
  "select s (Abs ps) =
     map (\<lambda>(p, x). \<lparr>sel_root = sel_root s, sel_node = x\<rparr>)
       (filter (\<lambda>(p, x). suffix ps p) (walk [] (sel_root s)))"
| "select s (Rel ps) =
     map (\<lambda>(p, x). \<lparr>sel_root = sel_root s, sel_node = x\<rparr>)
       (filter (\<lambda>(p, x). p = ps) (below (sel_node s)))"

text \<open>\<open>response.xpath(path)\<close>: the selector of a response is its document.\<close>

definition response_xpath :: "xml \<Rightarrow> xpath \<Rightarrow> selector list" where
  "response_xpath doc path = select \<lparr>sel_root = doc, sel_node = doc\<rparr> path"

text \<open>
  \<open>.extract()\<close> of a selector list (\<open>extract\<close> is a keyword of Isabelle, hence the
  name). Every path the modelled code extracts ends in \<open>text()\<close>, so only text nodes
  reach it; the serialisation of an element is not modelled.
\<close>

fun node_text :: "xml \<Rightarrow> string list" where
  "node_text (Txt t) = [t]"
| "node_text (Elem n cs) = []"

definition extract_all :: "selector list \<Rightarrow> string list" where
  "extract_all sels = concat (map (\<lambda>s. node_text (sel_node s)) sels)"

definition extract_first :: "selector list \<Rightarrow> string option" where
  "extract_first sels = (case extract_all sels of [] \<Rightarrow> None | x # _ \<Rightarrow> Some x)"

section \<open>Bills, requests and responses\<close>

text \<open>
  The dictionary \<open>data\<close> built by \<open>parse_bill\<close>. Its entry \<open>palavras_chave\<close> is a
  Python set while the bill is in flight and a string in the emitted item, hence the type
  parameter. The two authorship entries are absent until \<open>parse_authorship\<close> sets them.
\<close>

record 'k bill =
  palavras_chave :: 'k
  palavras_chave_originais :: "string option"
  nome :: string
  id_site :: "string option"
  apresentacao :: "string option"
  ementa :: "string option"
  local :: "string option"
  origem :: string
  url :: string
  autoria :: "string option"
  autoria_ids :: "string option"

type_synonym data = "string set bill"

text \<open>
  The \<open>meta\<close> dictionary threaded from \<open>parse_bill\<close> on. The key \<open>code\<close> is absent from
  the meta of a PDF request and the key \<open>urls\<close> from every meta before it; \<open>None\<close> is
  the absent key.
\<close>

record meta =
  m_bill :: data
  m_keywords :: "string option"
  m_code :: "string option"
  m_urls :: "string option list option"

datatype callback = Parse | Parse_bill | Parse_authorship | Parse_texts | Parse_pdf

text \<open>
  A scrapy \<open>Request\<close>, as a descriptor of the fetch. A queued URL is what
  \<open>extract_first\<close> returned, a string or \<open>None\<close>.
\<close>

record 'm request =
  req_url :: "string option"
  req_callback :: callback
  req_meta :: 'm

record ('b, 'm) response =
  resp_body :: 'b
  resp_meta :: 'm

text \<open>
  scrapy's constructor \<open>Request(url, callback, meta=meta)\<close> on a URL that comes from a
  response. It raises a \<open>TypeError\<close> for a URL that is not a string, and a \<open>ValueError\<close>
  for a string in which it finds no scheme. Which strings have a scheme for it depends on
  the version of scrapy, so the test is the parameter \<open>accepts\<close>. The requests of the
  stages before the manifest have URLs that start with \<open>http://\<close> or \<open>https://\<close>,
  which every version accepts: they are built as records.
\<close>

definition new_request ::
  "(string \<Rightarrow> bool) \<Rightarrow> string option \<Rightarrow> callback \<Rightarrow> 'm \<Rightarrow> error + 'm request" where
  "new_request accepts u cb m =
     (case u of
        None \<Rightarrow> Inl TypeError
      | Some s \<Rightarrow>
          if accepts s then Inr \<lparr>req_url = Some s, req_callback = cb, req_meta = m\<rparr>
          else Inl ValueError)"

text \<open>
  What \<open>next_pdf_or_item\<close> returns, when it does not raise: an item, \<open>None\<close>, or the
  next request.
\<close>

datatype outcome = Bill "string bill" | NoItem | Request "meta request"

section \<open>The bill pipeline: continuation and finalisation\<close>

text \<open>
  \<open>item['palavras_chave'] = ', '.join(item['palavras_chave'])\<close> followed by
  \<open>Bill(item)\<close>. Python leaves the iteration order of a set open: \<open>iter\<close> is that order.
\<close>

definition flatten :: "(string set \<Rightarrow> string list) \<Rightarrow> data \<Rightarrow> string bill" where
  "flatten iter item =
     \<lparr>palavras_chave = join '', '' (iter (palavras_chave item)),
      palavras_chave_originais = palavras_chave_originais item,
      nome = nome item,
      id_site = id_site item,
      apresentacao = apresentacao item,
      ementa = ementa item,
      local = local item,
      origem = origem item,
      url = url item,
      autoria = autoria item,
      autoria_ids = autoria_ids item\<rparr>"

text \<open>
  \<open>next_pdf_or_item\<close>. \<open>matchers\<close> is \<open>settings.MATCHERS\<close>, a collection that is falsy
  when empty; \<open>pending_texts\<close> is a sequence or \<open>None\<close> (what \<open>meta.get('urls')\<close>
  returns for an absent key), both falsy when empty. The meta of the new request has the
  keys \<open>bill\<close>, \<open>urls\<close> and \<open>keywords\<close>, and no \<open>code\<close>; building the request
  raises when the constructor refuses the URL.
\<close>

definition next_pdf_or_item ::
  "(string \<Rightarrow> bool) \<Rightarrow> 'm list \<Rightarrow> (string set \<Rightarrow> string list) \<Rightarrow>
     ('b, meta) response \<Rightarrow> string option list option \<Rightarrow> error + outcome" where
  "next_pdf_or_item accepts matchers iter response pending_texts =
     (let item = m_bill (resp_meta response);
          final =
            (let item' = flatten iter item in
             if matchers = [] then Bill item'
             else if palavras_chave item' \<noteq> [] then Bill item'
             else NoItem)
      in case pending_texts of
           None \<Rightarrow> Inr final
         | Some [] \<Rightarrow> Inr final
         | Some (u # urls) \<Rightarrow>
             (case new_request accepts u Parse_pdf
                     \<lparr>m_bill = item,
                      m_keywords = m_keywords (resp_meta response),
                      m_code = None,
                      m_urls = Some urls\<rparr> of
                Inl e \<Rightarrow> Inl e
              | Inr request \<Rightarrow> Inr (Request request)))"

section \<open>The bill pipeline: the stages\<close>

definition subjects :: "string list" where
  "subjects = [''PLS'', ''PLC'', ''PEC'']"

definition url_list :: "string \<Rightarrow> string \<Rightarrow> string" where
  "url_list sigla ano =
     ''http://legis.senado.leg.br/dadosabertos/materia/tramitando?sigla='' @ sigla @
     ''&ano='' @ ano"

definition url_detail :: "string \<Rightarrow> string" where
  "url_detail code = ''http://legis.senado.leg.br/dadosabertos/materia/'' @ code"

definition url_authorship :: "string \<Rightarrow> string" where
  "url_authorship code = ''http://legis.senado.leg.br/dadosabertos/materia/autoria/'' @ code"

definition url_texts :: "string \<Rightarrow> string" where
  "url_texts code = ''http://legis.senado.leg.br/dadosabertos/materia/textos/'' @ code"

definition url_humans :: "string \<Rightarrow> string" where
  "url_humans code = ''https://www25.senado.leg.br/web/atividade/materias/-/materia/'' @ code"

text \<open>\<open>str(n)\<close> for a year: \<open>date.year\<close> lies between 1 and 9999, a natural number.\<close>

definition digit_char :: "nat \<Rightarrow> char" where
  "digit_char d = char_of (48 + d)"

fun str_nat :: "nat \<Rightarrow> string" where
  "str_nat n = (if n < 10 then [digit_char n] else str_nat (n div 10) @ [digit_char (n mod 10)])"

declare str_nat.simps [simp del]

text \<open>
  \<open>start_requests\<close>, with the year of \<open>settings.START_DATE\<close> and the year of
  \<open>date.today()\<close> as parameters. \<open>product(years, subjects)\<close> runs through the subjects
  for each year in turn.
\<close>

definition start_requests :: "nat \<Rightarrow> nat \<Rightarrow> unit request list" where
  "start_requests start_year today_year =
     (let years = [start_year ..< today_year + 1] in
      map (\<lambda>(year, subject).
             \<lparr>req_url = Some (url_list subject (str_nat year)),
              req_callback = Parse, req_meta = ()\<rparr>)
        (List.product years subjects))"

text \<open>\<open>parse\<close>: one detail request for each code of the list page.\<close>

definition parse :: "(xml, 'm) response \<Rightarrow> string request list" where
  "parse response =
     (let codes = extract_all (response_xpath (resp_body response)
                     (Abs [Child ''CodigoMateria'', TextNode])) in
      map (\<lambda>code. \<lparr>req_url = Some (url_detail code), req_callback = Parse_bill,
                    req_meta = code\<rparr>) codes)"

text \<open>
  \<open>parse_bill\<close>. The meta of a detail response is the code that \<open>parse\<close> put there.
  \<open>collect_keywords\<close> is a method of the base class \<open>BillSpider\<close>, which is not among
  the sources: it is the parameter \<open>ck\<close>.
\<close>

definition parse_bill ::
  "(data \<Rightarrow> string option \<Rightarrow> data) \<Rightarrow> (xml, string) response \<Rightarrow> meta request" where
  "parse_bill ck response =
     (let doc = resp_body response;
          description = extract_first (response_xpath doc (Abs [Child ''EmentaMateria'', TextNode]));
          keywords = extract_first (response_xpath doc (Abs [Child ''IndexacaoMateria'', TextNode]));
          number = extract_first (response_xpath doc (Abs [Child ''NumeroMateria'', TextNode]));
          subject = extract_first (response_xpath doc (Abs [Child ''SiglaSubtipoMateria'', TextNode]));
          data =
            \<lparr>palavras_chave = {},
             palavras_chave_originais = keywords,
             nome = py_str subject @ '' '' @ py_str number,
             id_site = extract_first (response_xpath doc (Abs [Child ''CodigoMateria'', TextNode])),
             apresentacao = extract_first (response_xpath doc (Abs [Child ''DataApresentacao'', TextNode])),
             ementa = description,
             local = extract_first (response_xpath doc (Abs [Child ''NomeLocal'', TextNode])),
             origem = ''SE'',
             url = url_humans (resp_meta response),
             autoria = None,
             autoria_ids = None\<rparr>;
          data = ck data description;
          data = ck data keywords
      in \<lparr>req_url = Some (url_authorship (resp_meta response)),
          req_callback = Parse_authorship,
          req_meta = \<lparr>m_bill = data, m_keywords = keywords,
                      m_code = Some (resp_meta response), m_urls = None\<rparr>\<rparr>)"

text \<open>\<open>parse_authorship\<close>; \<open>response.meta['code']\<close> raises for an absent key.\<close>

definition parse_authorship :: "(xml, meta) response \<Rightarrow> error + meta request" where
  "parse_authorship response =
     (let doc = resp_body response;
          meta = resp_meta response;
          bill = (m_bill meta)
            \<lparr>autoria := Some (join '', '' (extract_all (response_xpath doc
                          (Abs [Child ''NomeAutor'', TextNode])))),
             autoria_ids := Some (join '', '' (extract_all (response_xpath doc
                          (Abs [Child ''IdentificacaoParlamentar'', Child ''CodigoParlamentar'',
                                TextNode]))))\<rparr>;
          meta = meta\<lparr>m_bill := bill\<rparr>
      in case m_code (resp_meta response) of
           None \<Rightarrow> Inl KeyError
         | Some code \<Rightarrow>
             Inr \<lparr>req_url = Some (url_texts code), req_callback = Parse_texts,
                  req_meta = meta\<rparr>)"

text \<open>
  The values the filter of \<open>parse_texts\<close> compares: a string, or the method \<open>lower\<close>
  bound to a string (the source reads the attribute and does not call it). Reading the
  attribute of \<open>None\<close> raises. A bound method never equals a string.
\<close>

datatype pyobj = Str string | BoundMethod string string

fun getattr_lower :: "string option \<Rightarrow> error + pyobj" where
  "getattr_lower None = Inl AttributeError"
| "getattr_lower (Some s) = Inr (BoundMethod s ''lower'')"

fun py_eq :: "pyobj \<Rightarrow> pyobj \<Rightarrow> bool" where
  "py_eq (Str a) (Str b) = (a = b)"
| "py_eq (BoundMethod r m) (BoundMethod r' m') = (r = r' \<and> m = m')"
| "py_eq _ _ = False"

text \<open>
  The generator of \<open>parse_texts\<close>, entry by entry: the condition is evaluated first, and
  an exception ends the scan. Both paths are absolute.
\<close>

fun pending_of :: "selector list \<Rightarrow> error + string option list" where
  "pending_of [] = Inr []"
| "pending_of (text # rest) =
     (case getattr_lower (extract_first (select text (Abs [Child ''TipoDocumento'', TextNode]))) of
        Inl e \<Rightarrow> Inl e
      | Inr tag \<Rightarrow>
          (case pending_of rest of
             Inl e \<Rightarrow> Inl e
           | Inr urls \<Rightarrow>
               Inr (if py_eq tag (Str ''pdf'')
                    then extract_first (select text (Abs [Child ''UrlTexto'', TextNode])) # urls
                    else urls)))"

definition parse_texts ::
  "(string \<Rightarrow> bool) \<Rightarrow> 'm list \<Rightarrow> (string set \<Rightarrow> string list) \<Rightarrow>
     (xml, meta) response \<Rightarrow> error + outcome" where
  "parse_texts accepts matchers iter response =
     (case pending_of (response_xpath (resp_body response) (Abs [Child ''Text''])) of
        Inl e \<Rightarrow> Inl e
      | Inr pending_texts \<Rightarrow>
          next_pdf_or_item accepts matchers iter response (Some pending_texts))"

text \<open>
  \<open>parse_pdf\<close>. \<open>text_from_pdf\<close> is a method of \<open>BillSpider\<close> as well, a parameter here,
  and so is \<open>collect_keywords\<close>.
\<close>

definition parse_pdf ::
  "(string \<Rightarrow> bool) \<Rightarrow> (data \<Rightarrow> string option \<Rightarrow> data) \<Rightarrow>
     (('b, meta) response \<Rightarrow> string option) \<Rightarrow> 'm list \<Rightarrow> (string set \<Rightarrow> string list) \<Rightarrow>
     ('b, meta) response \<Rightarrow> error + outcome" where
  "parse_pdf accepts ck text_from_pdf matchers iter response =
     (let text = text_from_pdf response;
          response = response\<lparr>resp_meta := (resp_meta response)
                        \<lparr>m_bill := ck (m_bill (resp_meta response)) text\<rparr>\<rparr>;
          pending_texts = m_urls (resp_meta response)
      in next_pdf_or_item accepts matchers iter response pending_texts)"

text \<open>
  The engine (scrapy) answers a request by calling its callback with a response that
  carries the request's meta. \<open>pdf_stages\<close> runs one invocation of \<open>parse_pdf\<close> for
  each fetched body, as long as the bill has a request in flight: a finalisation or an
  exception ends the run.
\<close>

fun pdf_stages ::
  "(string \<Rightarrow> bool) \<Rightarrow> (data \<Rightarrow> string option \<Rightarrow> data) \<Rightarrow>
     (('b, meta) response \<Rightarrow> string option) \<Rightarrow> 'm list \<Rightarrow> (string set \<Rightarrow> string list) \<Rightarrow>
     'b list \<Rightarrow> error + outcome \<Rightarrow> error + outcome" where
  "pdf_stages accepts ck text_from_pdf matchers iter [] out = out"
| "pdf_stages accepts ck text_from_pdf matchers iter (body # bodies) (Inr (Request r)) =
     pdf_stages accepts ck text_from_pdf matchers iter bodies
       (parse_pdf accepts ck text_from_pdf matchers iter
          \<lparr>resp_body = body, resp_meta = req_meta r\<rparr>)"
| "pdf_stages accepts ck text_from_pdf matchers iter (body # bodies) out = out"

text \<open>
  The URLs of a bill that are not scanned yet: the one of the request in flight and
  the ones its meta carries.
\<close>

fun pending :: "outcome \<Rightarrow> string option list" where
  "pending (Request r) = req_url r # (case m_urls (req_meta r) of None \<Rightarrow> [] | Some us \<Rightarrow> us)"
| "pending out = []"

fun is_request :: "outcome \<Rightarrow> bool" where
  "is_request (Request r) = True"
| "is_request out = False"

text \<open>A queued value that the constructor of a request takes for a URL.\<close>

definition acceptable :: "(string \<Rightarrow> bool) \<Rightarrow> string option \<Rightarrow> bool" where
  "acceptable accepts u = (case u of None \<Rightarrow> False | Some s \<Rightarrow> accepts s)"

text \<open>
  Modelled from the spec: \<open>BillSpider.collect_keywords\<close> is missing from the sources. The
  spec has it run the KeywordMatcher over the text and union any matches into the
  record's matched-keyword set; the matcher \<open>match_keywords\<close> is external.
\<close>

definition collect_keywords ::
  "(string option \<Rightarrow> string set) \<Rightarrow> data \<Rightarrow> string option \<Rightarrow> data" where
  "collect_keywords match_keywords data text =
     data\<lparr>palavras_chave := palavras_chave data \<union> match_keywords text\<rparr>"

section \<open>The agenda spider\<close>

text \<open>
  \<open>re.findall(r'S ?\d+', text)\<close> for a subject \<open>S\<close> without metacharacters. Below code
  point 256 the class \<open>\d\<close> is the ten ASCII digits. \<open>match_at\<close> is the match of the
  pattern at the start of a text: the subject, the space if there is one (backtracking
  to no space cannot help, since a digit must follow), and the longest run of digits,
  which must not be empty.
\<close>

definition is_digit :: "char \<Rightarrow> bool" where
  "is_digit c = (c \<in> set ''0123456789'')"

definition match_at :: "string \<Rightarrow> string \<Rightarrow> string option" where
  "match_at subject t =
     (if prefix subject t then
        (let r = drop (length subject) t;
             sp = (if take 1 r = '' '' then '' '' else []);
             ds = takeWhile is_digit (drop (length sp) r)
         in if ds = [] then None else Some (subject @ sp @ ds))
      else None)"

lemma match_at_nonempty: "match_at subject t = Some m \<Longrightarrow> m \<noteq> []"
  by (auto simp: match_at_def Let_def split: if_splits)

text \<open>The matches from left to right, each search resuming where the last match ended.\<close>

function findall :: "string \<Rightarrow> string \<Rightarrow> string list" where
  "findall subject t =
     (if t = [] then []
      else (case match_at subject t of
              None \<Rightarrow> findall subject (tl t)
            | Some m \<Rightarrow> m # findall subject (drop (length m) t)))"
  by pat_completeness auto
termination findall
  by (relation "measure (\<lambda>(subject, t). length t)")
     (auto dest: match_at_nonempty simp: Suc_diff_Suc)

declare findall.simps [simp del]

text \<open>
  \<open>is_related_to_a_bill\<close>, on the text \<open>event.extract()\<close> of the event: the
  serialisation is the XML library's.
\<close>

definition is_related_to_a_bill :: "string \<Rightarrow> bool" where
  "is_related_to_a_bill event_text = (\<exists>subject \<in> set subjects. findall subject event_text \<noteq> [])"

text \<open>\<open>parse_invitees\<close>: one line for each invitee.\<close>

definition parse_invitees :: "selector \<Rightarrow> string list" where
  "parse_invitees event =
     map (\<lambda>invitee.
            let name = extract_first (select invitee (Rel [Child ''Nome'', TextNode]));
                title = extract_first (select invitee (Rel [Child ''Cargo'', TextNode]))
            in ''* '' @ py_str name @ '' ('' @ py_str title @ '')'')
       (select event (Rel [Child ''Partes'', Child ''Parte'', Child ''Eventos'',
                           Child ''Convidados'', Child ''Convidado'']))"

definition newline :: string where
  "newline = [CHR 0x0A]"

definition heading_objective :: string where
  "heading_objective = ''**Finalidade**'' @ newline"

definition heading_ps :: string where
  "heading_ps = ''**Observa'' @ [CHR 0xE7, CHR 0xF5] @ ''es**'' @ newline"

definition heading_invitees :: string where
  "heading_invitees = ''**Convidados**'' @ newline @ newline"

definition heading_items :: string where
  "heading_items = ''**Pauta**'' @ newline @ '' ''"

text \<open>\<open>parse_description\<close>.\<close>

definition parse_description :: "selector \<Rightarrow> string" where
  "parse_description event =
     (let objective = or_empty (extract_first (select event
            (Rel [Child ''Partes'', Child ''Parte'', Child ''Finalidade'', TextNode])));
          objective = (if objective \<noteq> [] then heading_objective @ objective else objective);
          ps = or_empty (extract_first (select event
            (Rel [Child ''Partes'', Child ''Parte'', Child ''Eventos'', Child ''Evento'',
                  Child ''Observacoes'', TextNode])));
          ps = (if ps \<noteq> [] then heading_ps @ ps else ps);
          invitees = parse_invitees event;
          invitees = (if invitees \<noteq> [] then heading_invitees @ join newline invitees else []);
          items = join '', '' (extract_all (select event
            (Rel [Child ''Partes'', Child ''Parte'', Child ''Itens'', Child ''Item'',
                  Child ''Nome'', TextNode])));
          items = (if items \<noteq> [] then heading_items @ items else items);
          contents = filter (\<lambda>text. text \<noteq> []) [objective, items, ps, invitees]
      in join (newline @ newline) contents)"

section \<open>Concrete inputs\<close>

text \<open>
  A bill in flight with two matched keywords, the same bill with none, and responses that
  carry them. Where an iteration order of a set is needed, the examples take the sorted
  one.
\<close>

definition example_bill :: data where
  "example_bill =
     \<lparr>palavras_chave = {''saude'', ''educacao''},
      palavras_chave_originais = Some ''SAUDE, EDUCACAO'',
      nome = ''PLS 12'',
      id_site = Some ''1001'',
      apresentacao = Some ''2020-02-03'',
      ementa = Some ''Dispoe sobre saude e educacao.'',
      local = Some ''Plenario'',
      origem = ''SE'',
      url = url_humans ''1001'',
      autoria = Some ''Senadora A'',
      autoria_ids = Some ''77''\<rparr>"

definition example_meta :: "data \<Rightarrow> string option list option \<Rightarrow> meta" where
  "example_meta b us =
     \<lparr>m_bill = b, m_keywords = Some ''SAUDE, EDUCACAO'', m_code = None, m_urls = us\<rparr>"

definition example_response :: "data \<Rightarrow> string option list option \<Rightarrow> (string, meta) response" where
  "example_response b us = \<lparr>resp_body = ''%PDF'', resp_meta = example_meta b us\<rparr>"

text \<open>
  The test for a scheme of a recent scrapy, and three URLs of documents that pass it.
\<close>

definition has_scheme :: "string \<Rightarrow> bool" where
  "has_scheme u = (sublist ''://'' u \<or> prefix ''about:'' u \<or> prefix ''data:'' u)"

definition example_urls :: "string option list" where
  "example_urls =
     [Some ''http://legis.senado.leg.br/doc/1.pdf'',
      Some ''http://legis.senado.leg.br/doc/2.pdf'',
      Some ''http://legis.senado.leg.br/doc/3.pdf'']"

text \<open>A keyword matcher and a PDF text extraction to run the stages on.\<close>

definition example_matcher :: "string option \<Rightarrow> string set" where
  "example_matcher text =
     (case text of
        None \<Rightarrow> {}
      | Some t \<Rightarrow> Set.filter (\<lambda>k. sublist k t) {''saude'', ''educacao''})"

definition example_text_from_pdf :: "(string, meta) response \<Rightarrow> string option" where
  "example_text_from_pdf response = Some (resp_body response)"

text \<open>An event with an objective only, and one with an objective and two invitees.\<close>

definition example_event :: selector where
  "example_event =
     (let doc = Elem ''Reuniao''
        [Elem ''Codigo'' [Txt ''9001''],
         Elem ''Partes'' [Elem ''Parte'' [Elem ''Finalidade'' [Txt ''Discuss budget'']]]]
      in \<lparr>sel_root = doc, sel_node = doc\<rparr>)"

definition example_event_invitees :: selector where
  "example_event_invitees =
     (let doc = Elem ''Reuniao''
        [Elem ''Partes'' [Elem ''Parte''
           [Elem ''Finalidade'' [Txt ''Ouvir''],
            Elem ''Eventos'' [Elem ''Convidados''
              [Elem ''Convidado'' [Elem ''Nome'' [Txt ''Ana''], Elem ''Cargo'' [Txt ''Senadora'']],
               Elem ''Convidado'' [Elem ''Nome'' [Txt ''Rui''], Elem ''Cargo'' [Txt ''Ministro'']]]]]]]
      in \<lparr>sel_root = doc, sel_node = doc\<rparr>)"

section \<open>The description of an event, in the words of the spec\<close>

text \<open>The four fragments that \<open>parse_description\<close> reads from an event.\<close>

definition fragment_objective :: "selector \<Rightarrow> string" where
  "fragment_objective event = or_empty (extract_first (select event
     (Rel [Child ''Partes'', Child ''Parte'', Child ''Finalidade'', TextNode])))"

definition fragment_items :: "selector \<Rightarrow> string" where
  "fragment_items event = join '', '' (extract_all (select event
     (Rel [Child ''Partes'', Child ''Parte'', Child ''Itens'', Child ''Item'',
           Child ''Nome'', TextNode])))"

definition fragment_ps :: "selector \<Rightarrow> string" where
  "fragment_ps event = or_empty (extract_first (select event
     (Rel [Child ''Partes'', Child ''Parte'', Child ''Eventos'', Child ''Evento'',
           Child ''Observacoes'', TextNode])))"

definition fragment_invitees :: "selector \<Rightarrow> string" where
  "fragment_invitees event = join newline (parse_invitees event)"

text \<open>
  The composer as the spec words it: each non-empty fragment under its fixed heading, the
  labelled fragments joined by a blank line, in the order objective, items, observations,
  invitees.
\<close>

definition description_spec :: "string \<Rightarrow> string \<Rightarrow> string \<Rightarrow> string \<Rightarrow> string" where
  "description_spec objective items observations invitees =
     join (newline @ newline)
       (map (\<lambda>(heading, fragment). heading @ fragment)
          (filter (\<lambda>(heading, fragment). fragment \<noteq> [])
             [(heading_objective, objective), (heading_items, items),
              (heading_ps, observations), (heading_invitees, invitees)]))"

text \<open>
  The line of one invitee as the spec words it, \<open><name> (<role>)\<close>: the name, a space,
  and the role in parentheses, an absent field being the empty string, as the spec has it
  for every absent optional field.
\<close>

definition invitee_line_spec :: "selector \<Rightarrow> string" where
  "invitee_line_spec invitee =
     or_empty (extract_first (select invitee (Rel [Child ''Nome'', TextNode]))) @
     '' ('' @ or_empty (extract_first (select invitee (Rel [Child ''Cargo'', TextNode]))) @ '')''"

text \<open>The line of one invitee as the source builds it.\<close>

definition invitee_line :: "selector \<Rightarrow> string" where
  "invitee_line invitee =
     ''* '' @ py_str (extract_first (select invitee (Rel [Child ''Nome'', TextNode]))) @
     '' ('' @ py_str (extract_first (select invitee (Rel [Child ''Cargo'', TextNode]))) @ '')''"

definition has_name_and_role :: "selector \<Rightarrow> bool" where
  "has_name_and_role invitee =
     (extract_first (select invitee (Rel [Child ''Nome'', TextNode])) \<noteq> None \<and>
      extract_first (select invitee (Rel [Child ''Cargo'', TextNode])) \<noteq> None)"

definition invitee_nodes :: "selector \<Rightarrow> selector list" where
  "invitee_nodes event =
     select event (Rel [Child ''Partes'', Child ''Parte'', Child ''Eventos'',
                        Child ''Convidados'', Child ''Convidado''])"

text \<open>Reading a year back from its decimal digits.\<close>

definition decode_nat :: "string \<Rightarrow> nat" where
  "decode_nat s = foldl (\<lambda>a c. 10 * a + (of_char c - 48)) 0 s"

section \<open>The manifest stage, in the words of the spec\<close>

text \<open>\<open>s.lower()\<close> on the letters of ASCII.\<close>

definition lower_char :: "char \<Rightarrow> char" where
  "lower_char c =
     (if c \<in> set ''ABCDEFGHIJKLMNOPQRSTUVWXYZ'' then char_of (of_char c + (32::nat)) else c)"

definition str_lower :: "string \<Rightarrow> string" where
  "str_lower s = map lower_char s"

text \<open>
  The queue as the spec's contract words it: for each document entry, read that entry's
  own type tag and its own URL; keep the entry only if its own type tag denotes PDF.
\<close>

definition pending_spec :: "xml \<Rightarrow> string option list" where
  "pending_spec doc =
     map (\<lambda>entry. extract_first (select entry (Rel [Child ''UrlTexto'', TextNode])))
       (filter (\<lambda>entry.
                  case extract_first (select entry (Rel [Child ''TipoDocumento'', TextNode])) of
                    None \<Rightarrow> False
                  | Some tag \<Rightarrow> str_lower tag = ''pdf'')
          (response_xpath doc (Abs [Child ''Text''])))"

text \<open>
  A manifest with a PDF entry and an HTML entry, and one whose only entry has no type
  tag.
\<close>

definition example_manifest :: xml where
  "example_manifest =
     Elem ''TextoMateria''
       [Elem ''Text'' [Elem ''TipoDocumento'' [Txt ''pdf''],
                       Elem ''UrlTexto'' [Txt ''http://legis.senado.leg.br/doc/1.pdf'']],
        Elem ''Text'' [Elem ''TipoDocumento'' [Txt ''html''],
                       Elem ''UrlTexto'' [Txt ''http://legis.senado.leg.br/doc/2.html'']]]"

definition example_manifest_untagged :: xml where
  "example_manifest_untagged =
     Elem ''TextoMateria''
       [Elem ''Text'' [Elem ''UrlTexto'' [Txt ''http://legis.senado.leg.br/doc/1.pdf'']]]"

text \<open>
  The stages of one bill from its detail page to its manifest, chained as the engine
  chains them: each response carries the meta of the request it answers.
\<close>

definition through_manifest ::
  "(string \<Rightarrow> bool) \<Rightarrow> (data \<Rightarrow> string option \<Rightarrow> data) \<Rightarrow> 'm list \<Rightarrow>
     (string set \<Rightarrow> string list) \<Rightarrow> (xml, string) response \<Rightarrow> xml \<Rightarrow> xml \<Rightarrow>
     error + outcome" where
  "through_manifest accepts ck matchers iter detail authorship manifest =
     (case parse_authorship
             \<lparr>resp_body = authorship, resp_meta = req_meta (parse_bill ck detail)\<rparr> of
        Inl e \<Rightarrow> Inl e
      | Inr r \<Rightarrow>
          parse_texts accepts matchers iter \<lparr>resp_body = manifest, resp_meta = req_meta r\<rparr>)"

section \<open>Properties of the continuation\<close>

lemma next_pdf_or_item_final:
  "pending_texts = None \<or> pending_texts = Some [] \<Longrightarrow>
   next_pdf_or_item accepts matchers iter response pending_texts =
     Inr (if matchers = [] \<or>
             join '', '' (iter (palavras_chave (m_bill (resp_meta response)))) \<noteq> []
          then Bill (flatten iter (m_bill (resp_meta response))) else NoItem)"
  by (auto simp: next_pdf_or_item_def flatten_def Let_def)

lemma next_pdf_or_item_request:
  "acceptable accepts u \<Longrightarrow>
   next_pdf_or_item accepts matchers iter response (Some (u # us)) =
     Inr (Request \<lparr>req_url = u, req_callback = Parse_pdf,
       req_meta = \<lparr>m_bill = m_bill (resp_meta response),
                   m_keywords = m_keywords (resp_meta response),
                   m_code = None, m_urls = Some us\<rparr>\<rparr>)"
  by (auto simp: next_pdf_or_item_def new_request_def acceptable_def Let_def split: option.splits)

text \<open>Outside the URLs that the constructor accepts, building the next request raises.\<close>

lemma next_pdf_or_item_raises:
  "\<not> acceptable accepts u \<Longrightarrow>
   next_pdf_or_item accepts matchers iter response (Some (u # us)) =
     Inl (if u = None then TypeError else ValueError)"
  by (auto simp: next_pdf_or_item_def new_request_def acceptable_def Let_def split: option.splits)

lemma palavras_chave_flatten:
  "palavras_chave (flatten iter item) = join '', '' (iter (palavras_chave item))"
  by (simp add: flatten_def)

lemma pending_next_pdf_or_item:
  assumes "\<forall>u \<in> set (case q of None \<Rightarrow> [] | Some us \<Rightarrow> us). acceptable accepts u"
  shows "\<exists>out. next_pdf_or_item accepts matchers iter response q = Inr out \<and>
           pending out = (case q of None \<Rightarrow> [] | Some us \<Rightarrow> us)"
proof (cases q)
  case None
  then show ?thesis by (simp add: next_pdf_or_item_final)
next
  case (Some us)
  show ?thesis
  proof (cases us)
    case Nil
    with Some show ?thesis by (simp add: next_pdf_or_item_final)
  next
    case (Cons u rest)
    with Some assms have "acceptable accepts u" by simp
    with Some Cons show ?thesis by (simp add: next_pdf_or_item_request)
  qed
qed

lemma pending_parse_pdf:
  assumes "\<forall>u \<in> set (case m_urls (resp_meta response) of None \<Rightarrow> [] | Some us \<Rightarrow> us).
             acceptable accepts u"
  shows "\<exists>out. parse_pdf accepts ck tfp matchers iter response = Inr out \<and>
           pending out = (case m_urls (resp_meta response) of None \<Rightarrow> [] | Some us \<Rightarrow> us)"
  using pending_next_pdf_or_item [OF assms] by (simp add: parse_pdf_def Let_def)

lemma is_request_pending: "is_request out \<longleftrightarrow> pending out \<noteq> []"
  by (cases out) auto

lemma pdf_stages_final [simp]:
  "pdf_stages accepts ck tfp matchers iter bodies (Inr (Bill item)) = Inr (Bill item)"
  "pdf_stages accepts ck tfp matchers iter bodies (Inr NoItem) = Inr NoItem"
  "pdf_stages accepts ck tfp matchers iter bodies (Inl e) = Inl e"
  by (cases bodies; simp)+

lemma pending_pdf_stages:
  assumes "\<forall>u \<in> set (pending out0). acceptable accepts u"
  shows "\<exists>out. pdf_stages accepts ck tfp matchers iter bodies (Inr out0) = Inr out \<and>
           pending out = drop (length bodies) (pending out0)"
  using assms
proof (induction bodies arbitrary: out0)
  case Nil
  then show ?case by simp
next
  case (Cons b bs)
  show ?case
  proof (cases out0)
    case (Request r)
    let ?resp = "\<lparr>resp_body = b, resp_meta = req_meta r\<rparr>"
    from Cons.prems Request
    have "\<forall>u \<in> set (case m_urls (resp_meta ?resp) of None \<Rightarrow> [] | Some us \<Rightarrow> us).
            acceptable accepts u"
      by simp
    from pending_parse_pdf [OF this, of ck tfp matchers iter] obtain out1 where
      p: "parse_pdf accepts ck tfp matchers iter ?resp = Inr out1" and
      q: "pending out1 = tl (pending out0)"
      using Request by auto
    from q Cons.prems have "\<forall>u \<in> set (pending out1). acceptable accepts u"
      by (cases "pending out0") auto
    from Cons.IH [OF this] obtain out where
      "pdf_stages accepts ck tfp matchers iter bs (Inr out1) = Inr out"
      "pending out = drop (length bs) (pending out1)"
      by blast
    with p q Request show ?thesis
      by (simp add: drop_Suc)
  qed simp_all
qed

text \<open>
  Claim C1. When the queue handed to \<open>next_pdf_or_item\<close> is empty (an empty sequence or
  \<open>None\<close>), the keyword set is first flattened into the string joined with a comma and
  a space. Without matchers the item is emitted whatever the string is; with matchers it
  is emitted if and only if the string is not empty, and otherwise the result is
  \<open>None\<close>. In particular a bill with no matched keyword is emitted, with the empty
  string, when there are no matchers, and dropped when there are.
\<close>

theorem finalisation_emits_or_discards:
  assumes "pending_texts = None \<or> pending_texts = Some []"
  shows
    "palavras_chave (flatten iter (m_bill (resp_meta response))) =
       join '', '' (iter (palavras_chave (m_bill (resp_meta response)))) \<and>
     (matchers = [] \<longrightarrow>
        next_pdf_or_item accepts matchers iter response pending_texts =
          Inr (Bill (flatten iter (m_bill (resp_meta response))))) \<and>
     (matchers \<noteq> [] \<longrightarrow>
        ((\<exists>item. next_pdf_or_item accepts matchers iter response pending_texts = Inr (Bill item)) \<longleftrightarrow>
           join '', '' (iter (palavras_chave (m_bill (resp_meta response)))) \<noteq> []) \<and>
        (join '', '' (iter (palavras_chave (m_bill (resp_meta response)))) \<noteq> [] \<longrightarrow>
           next_pdf_or_item accepts matchers iter response pending_texts =
             Inr (Bill (flatten iter (m_bill (resp_meta response))))) \<and>
        (join '', '' (iter (palavras_chave (m_bill (resp_meta response)))) = [] \<longrightarrow>
           next_pdf_or_item accepts matchers iter response pending_texts = Inr NoItem)) \<and>
     (palavras_chave (m_bill (resp_meta response)) = {} \<and> iter {} = [] \<longrightarrow>
        (if matchers = []
         then next_pdf_or_item accepts matchers iter response pending_texts =
                Inr (Bill (flatten iter (m_bill (resp_meta response)))) \<and>
              palavras_chave (flatten iter (m_bill (resp_meta response))) = []
         else next_pdf_or_item accepts matchers iter response pending_texts = Inr NoItem))"
  using assms by (auto simp: next_pdf_or_item_final palavras_chave_flatten)

theorem finalisation_emits_or_discards_witness:
  "palavras_chave (flatten sorted_list_of_set example_bill) = ''educacao, saude'' \<and>
   next_pdf_or_item has_scheme ([]::unit list) sorted_list_of_set
       (example_response (example_bill\<lparr>palavras_chave := {}\<rparr>) None) None =
     Inr (Bill (flatten sorted_list_of_set (example_bill\<lparr>palavras_chave := {}\<rparr>))) \<and>
   palavras_chave (flatten sorted_list_of_set (example_bill\<lparr>palavras_chave := {}\<rparr>)) = [] \<and>
   next_pdf_or_item has_scheme [()] sorted_list_of_set
       (example_response (example_bill\<lparr>palavras_chave := {}\<rparr>) (Some [])) (Some []) =
     Inr NoItem \<and>
   next_pdf_or_item has_scheme [()] sorted_list_of_set
       (example_response example_bill (Some [])) (Some []) =
     Inr (Bill (flatten sorted_list_of_set example_bill))"
proof -
  have kw: "join '', '' (sorted_list_of_set {''saude'', ''educacao''}) = ''educacao, saude''"
    by code_simp
  have e: "sorted_list_of_set ({}::string set) = []"
    by simp
  show ?thesis
    using
      finalisation_emits_or_discards [of None sorted_list_of_set
        "example_response (example_bill\<lparr>palavras_chave := {}\<rparr>) None" "[]::unit list" has_scheme]
      finalisation_emits_or_discards [of "Some []" sorted_list_of_set
        "example_response (example_bill\<lparr>palavras_chave := {}\<rparr>) (Some [])" "[()]" has_scheme]
      finalisation_emits_or_discards [of "Some []" sorted_list_of_set
        "example_response example_bill (Some [])" "[()]" has_scheme]
    by (simp add: example_response_def example_meta_def example_bill_def kw e)
qed

lemma example_urls_acceptable: "\<forall>u \<in> set example_urls. acceptable has_scheme u"
  by code_simp

text \<open>
  Claim C2. The queue of a bill is made of URLs: strings that the constructor of a
  request accepts. The URLs of a bill not scanned yet are the one of the request in
  flight and the ones its meta carries. One invocation of \<open>parse_pdf\<close>, on the response
  to the request in flight, returns and removes exactly the first of them; the follow-up
  request is issued if and only if the rest is not empty; and \<open>N\<close> invocations after a
  queue of length \<open>L\<close> was handed to \<open>next_pdf_or_item\<close> leave the queue without its
  first \<open>N\<close> URLs, of length \<open>L - N\<close> (0 when \<open>N\<close> exceeds \<open>L\<close>: subtraction on natural
  numbers stops at 0).
\<close>

theorem pdf_stage_consumes_one_url:
  assumes "\<forall>u \<in> set (tl (pending (Request r))). acceptable accepts u"
    and "\<forall>u \<in> set queue. acceptable accepts u"
  shows
    "(\<exists>out. parse_pdf accepts ck tfp matchers iter
               \<lparr>resp_body = body, resp_meta = req_meta r\<rparr> = Inr out \<and>
            pending out = tl (pending (Request r)) \<and>
            (is_request out \<longleftrightarrow> tl (pending (Request r)) \<noteq> [])) \<and>
     (\<exists>out. pdf_stages accepts ck tfp matchers iter bodies
               (next_pdf_or_item accepts matchers iter response (Some queue)) = Inr out \<and>
            pending out = drop (length bodies) queue \<and>
            length (pending out) = length queue - length bodies)"
proof -
  let ?resp = "\<lparr>resp_body = body, resp_meta = req_meta r\<rparr>"
  from assms(1)
  have "\<forall>u \<in> set (case m_urls (resp_meta ?resp) of None \<Rightarrow> [] | Some us \<Rightarrow> us).
          acceptable accepts u"
    by simp
  from pending_parse_pdf [OF this, of ck tfp matchers iter]
  have a: "\<exists>out. parse_pdf accepts ck tfp matchers iter ?resp = Inr out \<and>
            pending out = tl (pending (Request r)) \<and>
            (is_request out \<longleftrightarrow> tl (pending (Request r)) \<noteq> [])"
    by (auto simp: is_request_pending)
  from assms(2)
  have "\<forall>u \<in> set (case Some queue of None \<Rightarrow> [] | Some us \<Rightarrow> us). acceptable accepts u"
    by simp
  from pending_next_pdf_or_item [OF this, of matchers iter response] obtain out0 where
    n: "next_pdf_or_item accepts matchers iter response (Some queue) = Inr out0" and
    q: "pending out0 = queue"
    by auto
  from q assms(2) have "\<forall>u \<in> set (pending out0). acceptable accepts u"
    by simp
  from pending_pdf_stages [OF this, of ck tfp matchers iter bodies] n q
  have b: "\<exists>out. pdf_stages accepts ck tfp matchers iter bodies
               (next_pdf_or_item accepts matchers iter response (Some queue)) = Inr out \<and>
            pending out = drop (length bodies) queue \<and>
            length (pending out) = length queue - length bodies"
    by auto
  from a b show ?thesis by blast
qed

theorem pdf_stage_consumes_one_url_witness:
  "(\<exists>out. parse_pdf has_scheme (\<lambda>d t. d) (\<lambda>r. None) [()] sorted_list_of_set
             \<lparr>resp_body = ''%PDF'', resp_meta = example_meta example_bill (Some (tl example_urls))\<rparr> =
             Inr out \<and>
          pending out = tl example_urls \<and> is_request out) \<and>
   (\<exists>out. pdf_stages has_scheme (\<lambda>d t. d) (\<lambda>r. None) [()] sorted_list_of_set [''%PDF'', ''%PDF'']
             (next_pdf_or_item has_scheme [()] sorted_list_of_set
                (example_response example_bill None) (Some example_urls)) = Inr out \<and>
          pending out = [Some ''http://legis.senado.leg.br/doc/3.pdf''] \<and>
          length (pending out) = 1)"
proof -
  have t: "\<forall>u \<in> set (tl example_urls). acceptable has_scheme u"
    using example_urls_acceptable by (simp add: example_urls_def)
  show ?thesis
    using pdf_stage_consumes_one_url [where accepts = has_scheme and queue = example_urls
        and r = "\<lparr>req_url = hd example_urls, req_callback = Parse_pdf,
                  req_meta = example_meta example_bill (Some (tl example_urls))\<rparr>"
        and ck = "\<lambda>d t. d" and tfp = "\<lambda>r. None" and matchers = "[()]"
        and iter = sorted_list_of_set and body = "''%PDF''" and bodies = "[''%PDF'', ''%PDF'']"
        and response = "example_response example_bill None"]
      t example_urls_acceptable
    by (simp add: example_meta_def) (simp add: example_urls_def)
qed

section \<open>The matched keywords across the stages\<close>

lemma palavras_chave_collect_keywords:
  "palavras_chave (collect_keywords mk data text) = palavras_chave data \<union> mk text"
  by (simp add: collect_keywords_def)

lemma parse_pdf_Request:
  "parse_pdf accepts ck tfp matchers iter response = Inr (Request r) \<Longrightarrow>
   m_bill (req_meta r) = ck (m_bill (resp_meta response)) (tfp response)"
  by (auto simp: parse_pdf_def next_pdf_or_item_def new_request_def Let_def
           split: option.splits list.splits if_splits)

lemma parse_pdf_Bill:
  "parse_pdf accepts ck tfp matchers iter response = Inr (Bill item) \<Longrightarrow>
   item = flatten iter (ck (m_bill (resp_meta response)) (tfp response))"
  by (auto simp: parse_pdf_def next_pdf_or_item_def new_request_def Let_def
           split: option.splits list.splits if_splits)

lemma pdf_stages_grow:
  "(pdf_stages accepts (collect_keywords mk) tfp matchers iter bodies (Inr (Request r)) =
      Inr (Request r') \<longrightarrow>
      palavras_chave (m_bill (req_meta r)) \<subseteq> palavras_chave (m_bill (req_meta r'))) \<and>
   (pdf_stages accepts (collect_keywords mk) tfp matchers iter bodies (Inr (Request r)) =
      Inr (Bill item) \<longrightarrow>
      (\<exists>S. palavras_chave (m_bill (req_meta r)) \<subseteq> S \<and> palavras_chave item = join '', '' (iter S)))"
proof (induction bodies arbitrary: r)
  case Nil
  then show ?case by simp
next
  case (Cons b bs)
  let ?resp = "\<lparr>resp_body = b, resp_meta = req_meta r\<rparr>"
  let ?out = "parse_pdf accepts (collect_keywords mk) tfp matchers iter ?resp"
  show ?case
  proof (cases ?out)
    case (Inl e)
    then show ?thesis by simp
  next
    case (Inr out)
    show ?thesis
    proof (cases out)
      case (Bill x)
      with Inr have "?out = Inr (Bill x)" by simp
      from parse_pdf_Bill [OF this] show ?thesis
        using Inr Bill by (auto simp: palavras_chave_flatten palavras_chave_collect_keywords)
    next
      case NoItem
      with Inr show ?thesis by simp
    next
      case (Request r1)
      with Inr have "?out = Inr (Request r1)" by simp
      from parse_pdf_Request [OF this]
      have "palavras_chave (m_bill (req_meta r)) \<subseteq> palavras_chave (m_bill (req_meta r1))"
        by (simp add: palavras_chave_collect_keywords)
      with Cons.IH [of r1] Inr Request show ?thesis
        by auto
    qed
  qed
qed

lemma parse_bill_seed:
  "palavras_chave (m_bill (req_meta (parse_bill (collect_keywords mk) detail))) =
     mk (extract_first (response_xpath (resp_body detail) (Abs [Child ''EmentaMateria'', TextNode]))) \<union>
     mk (extract_first (response_xpath (resp_body detail) (Abs [Child ''IndexacaoMateria'', TextNode])))"
  by (simp add: parse_bill_def Let_def palavras_chave_collect_keywords)

lemma parse_authorship_keeps:
  "parse_authorship response = Inr r \<Longrightarrow>
   palavras_chave (m_bill (req_meta r)) = palavras_chave (m_bill (resp_meta response))"
  by (auto simp: parse_authorship_def Let_def split: option.splits)

text \<open>
  Claim C5, with \<open>collect_keywords\<close> as the spec describes it. Collecting from a text
  only adds to the set; the detail stage seeds the set with the matches of the description
  and of the raw keyword index; the authorship stage leaves it as it is; the request that
  follows a PDF scan carries a superset of the set the scan started from; and so does the
  request, or the flattened string of the item, after any number of PDF scans.
\<close>

theorem matched_keywords_only_grow:
  "palavras_chave data \<subseteq> palavras_chave (collect_keywords mk data text) \<and>
   palavras_chave (m_bill (req_meta (parse_bill (collect_keywords mk) detail))) =
     mk (extract_first (response_xpath (resp_body detail) (Abs [Child ''EmentaMateria'', TextNode]))) \<union>
     mk (extract_first (response_xpath (resp_body detail) (Abs [Child ''IndexacaoMateria'', TextNode]))) \<and>
   (parse_authorship authorship = Inr ra \<longrightarrow>
      palavras_chave (m_bill (req_meta ra)) = palavras_chave (m_bill (resp_meta authorship))) \<and>
   (parse_pdf accepts (collect_keywords mk) tfp matchers iter response = Inr (Request r) \<longrightarrow>
      palavras_chave (m_bill (resp_meta response)) \<subseteq> palavras_chave (m_bill (req_meta r))) \<and>
   (pdf_stages accepts (collect_keywords mk) tfp matchers iter bodies (Inr (Request r0)) =
      Inr (Request r') \<longrightarrow>
      palavras_chave (m_bill (req_meta r0)) \<subseteq> palavras_chave (m_bill (req_meta r'))) \<and>
   (pdf_stages accepts (collect_keywords mk) tfp matchers iter bodies (Inr (Request r0)) =
      Inr (Bill item) \<longrightarrow>
      (\<exists>S. palavras_chave (m_bill (req_meta r0)) \<subseteq> S \<and>
           palavras_chave item = join '', '' (iter S)))"
proof -
  have "parse_pdf accepts (collect_keywords mk) tfp matchers iter response = Inr (Request r) \<longrightarrow>
      palavras_chave (m_bill (resp_meta response)) \<subseteq> palavras_chave (m_bill (req_meta r))"
    by (auto dest!: parse_pdf_Request simp: palavras_chave_collect_keywords)
  then show ?thesis
    using pdf_stages_grow [of accepts mk tfp matchers iter bodies r0 r' item]
      parse_authorship_keeps [of authorship ra]
    by (simp add: palavras_chave_collect_keywords parse_bill_seed)
qed

theorem matched_keywords_only_grow_witness:
  "parse_pdf has_scheme (collect_keywords example_matcher) example_text_from_pdf [()]
     sorted_list_of_set
     \<lparr>resp_body = ''lei de saude'',
      resp_meta = example_meta (example_bill\<lparr>palavras_chave := {''educacao''}\<rparr>)
                    (Some [Some ''http://legis.senado.leg.br/doc/2.pdf''])\<rparr> =
   Inr (Request \<lparr>req_url = Some ''http://legis.senado.leg.br/doc/2.pdf'', req_callback = Parse_pdf,
     req_meta = example_meta (example_bill\<lparr>palavras_chave := {''educacao'', ''saude''}\<rparr>)
                  (Some [])\<rparr>) \<and>
   {''educacao''} \<subseteq> {''educacao'', ''saude''}"
proof -
  have m: "example_matcher (Some ''lei de saude'') = {''saude''}"
    unfolding example_matcher_def by code_simp
  have u: "acceptable has_scheme (Some ''http://legis.senado.leg.br/doc/2.pdf'')"
    by code_simp
  have h: "parse_pdf has_scheme (collect_keywords example_matcher) example_text_from_pdf [()]
     sorted_list_of_set
     \<lparr>resp_body = ''lei de saude'',
      resp_meta = example_meta (example_bill\<lparr>palavras_chave := {''educacao''}\<rparr>)
                    (Some [Some ''http://legis.senado.leg.br/doc/2.pdf''])\<rparr> =
   Inr (Request \<lparr>req_url = Some ''http://legis.senado.leg.br/doc/2.pdf'', req_callback = Parse_pdf,
     req_meta = example_meta (example_bill\<lparr>palavras_chave := {''educacao'', ''saude''}\<rparr>)
                  (Some [])\<rparr>)"
    by (simp add: parse_pdf_def next_pdf_or_item_request [OF u] collect_keywords_def
        example_text_from_pdf_def example_meta_def m insert_commute)
  from matched_keywords_only_grow [where mk = example_matcher and tfp = example_text_from_pdf
      and accepts = has_scheme and matchers = "[()]" and iter = sorted_list_of_set and response =
      "\<lparr>resp_body = ''lei de saude'',
        resp_meta = example_meta (example_bill\<lparr>palavras_chave := {''educacao''}\<rparr>)
                      (Some [Some ''http://legis.senado.leg.br/doc/2.pdf''])\<rparr>"
      and r = "\<lparr>req_url = Some ''http://legis.senado.leg.br/doc/2.pdf'', req_callback = Parse_pdf,
        req_meta = example_meta (example_bill\<lparr>palavras_chave := {''educacao'', ''saude''}\<rparr>)
                     (Some [])\<rparr>"] h
  have "palavras_chave (m_bill (example_meta (example_bill\<lparr>palavras_chave := {''educacao''}\<rparr>)
                    (Some [Some ''http://legis.senado.leg.br/doc/2.pdf'']))) \<subseteq>
        palavras_chave (m_bill (example_meta (example_bill\<lparr>palavras_chave := {''educacao'', ''saude''}\<rparr>)
                    (Some [])))"
    by simp
  with h show ?thesis
    by (simp add: example_meta_def)
qed

section \<open>Discovery\<close>

lemma decode_digit: "d < 10 \<Longrightarrow> (of_char (digit_char d) :: nat) - 48 = d"
  by (simp add: digit_char_def)

lemma decode_str_nat: "decode_nat (str_nat n) = n"
proof (induction n rule: str_nat.induct)
  case (1 n)
  show ?case
  proof (cases "n < 10")
    case True
    then show ?thesis
      by (subst str_nat.simps) (simp add: decode_nat_def decode_digit)
  next
    case False
    with 1 have "decode_nat (str_nat (n div 10)) = n div 10" by simp
    with False show ?thesis
      by (subst str_nat.simps) (simp add: decode_nat_def decode_digit)
  qed
qed

lemma str_nat_inj: "str_nat m = str_nat n \<Longrightarrow> m = n"
  by (metis decode_str_nat)

lemma length_subjects: "s \<in> set subjects \<Longrightarrow> length s = 3"
  by (auto simp: subjects_def)

lemma url_list_inj:
  assumes "s \<in> set subjects" "s' \<in> set subjects"
    and "url_list s (str_nat y) = url_list s' (str_nat y')"
  shows "s = s' \<and> y = y'"
proof -
  from assms(1,2) have "length s = length s'"
    by (simp add: length_subjects)
  with assms(3) show ?thesis
    by (auto simp: url_list_def dest: str_nat_inj)
qed

lemma distinct_subjects: "distinct subjects"
  by (simp add: subjects_def)

lemma req_url_start_requests:
  "map req_url (start_requests sy ty) =
     map (\<lambda>(year, subject). Some (url_list subject (str_nat year)))
       (List.product [sy ..< ty + 1] subjects)"
  by (simp add: start_requests_def Let_def split_def comp_def)

lemma distinct_start_requests: "distinct (map req_url (start_requests sy ty))"
  unfolding req_url_start_requests
  by (auto simp: distinct_map distinct_product distinct_subjects inj_on_def dest: url_list_inj)

lemma length_start_requests: "length (start_requests sy ty) = (ty + 1 - sy) * 3"
  by (simp add: start_requests_def Let_def subjects_def del: upt_Suc)

text \<open>
  Claim C6. The requests of \<open>start_requests\<close> are, in order, the list URLs of the pairs
  of a year from the start year to the current year and a subject. The pairs are all of
  \<open>{start..current} \<times> {PLS, PLC, PEC}\<close>, each once; different pairs give different
  URLs, so no two requests are for the same pair; there are three requests for each
  year, and nine from 2020 to 2022.
\<close>

theorem start_requests_one_per_year_and_subject:
  "map req_url (start_requests sy ty) =
     map (\<lambda>(year, subject). Some (url_list subject (str_nat year)))
       (List.product [sy ..< ty + 1] subjects) \<and>
   set (List.product [sy ..< ty + 1] subjects) = {sy..ty} \<times> {''PLS'', ''PLC'', ''PEC''} \<and>
   distinct (List.product [sy ..< ty + 1] subjects) \<and>
   distinct (map req_url (start_requests sy ty)) \<and>
   length (start_requests sy ty) = (ty + 1 - sy) * 3 \<and>
   length (start_requests 2020 2022) = 9"
proof -
  have "set (List.product [sy ..< ty + 1] subjects) = {sy..ty} \<times> {''PLS'', ''PLC'', ''PEC''}"
    by (auto simp: subjects_def)
  moreover have "distinct (List.product [sy ..< ty + 1] subjects)"
    by (simp add: distinct_product distinct_subjects)
  moreover have "length (start_requests 2020 2022) = 9"
    by (simp add: length_start_requests)
  ultimately show ?thesis
    using req_url_start_requests [of sy ty] distinct_start_requests [of sy ty]
      length_start_requests [of sy ty]
    by simp
qed

section \<open>The agenda: relevance of an event\<close>

lemma not_digit_space: "\<not> is_digit CHR '' ''"
  by (simp add: is_digit_def)

lemma match_at_Some_decompose:
  assumes "match_at subject t = Some m"
  shows "\<exists>sp ds post. t = subject @ sp @ ds @ post \<and> m = subject @ sp @ ds \<and>
           (sp = [] \<or> sp = '' '') \<and> ds \<noteq> [] \<and> (\<forall>d \<in> set ds. is_digit d)"
proof -
  define r where "r = drop (length subject) t"
  define sp where "sp = (if take 1 r = '' '' then '' '' else [])"
  define ds where "ds = takeWhile is_digit (drop (length sp) r)"
  from assms have p: "prefix subject t" and ne: "ds \<noteq> []" and m: "m = subject @ sp @ ds"
    by (auto simp: match_at_def Let_def r_def sp_def ds_def split: if_splits)
  from p have t: "t = subject @ r"
    by (auto simp: r_def prefix_def)
  have "r = sp @ drop (length sp) r"
    by (cases r) (auto simp: sp_def)
  also have "drop (length sp) r = ds @ dropWhile is_digit (drop (length sp) r)"
    by (simp add: ds_def)
  finally have "t = subject @ sp @ ds @ dropWhile is_digit (drop (length sp) r)"
    using t by simp
  moreover have "\<forall>d \<in> set ds. is_digit d"
    by (auto simp: ds_def dest: set_takeWhileD)
  moreover have "sp = [] \<or> sp = '' ''"
    by (simp add: sp_def)
  ultimately show ?thesis
    using ne m by blast
qed

lemma match_at_compose:
  assumes "sp = [] \<or> sp = '' ''" "ds \<noteq> []" "\<forall>d \<in> set ds. is_digit d"
  shows "match_at subject (subject @ sp @ ds @ post) \<noteq> None"
proof -
  from assms(2,3) obtain d ds' where ds: "ds = d # ds'" and d: "is_digit d"
    by (cases ds) auto
  from d have "d \<noteq> CHR '' ''"
    using not_digit_space by auto
  with assms(1) ds d show ?thesis
    by (auto simp: match_at_def Let_def)
qed

lemma match_at_Nil: "match_at subject [] = None"
  by (auto simp: match_at_def Let_def)

lemma findall_nonempty_iff:
  "findall subject t \<noteq> [] \<longleftrightarrow> (\<exists>pre t'. t = pre @ t' \<and> match_at subject t' \<noteq> None)"
proof (induction t)
  case Nil
  show ?case
    by (subst findall.simps) (simp add: match_at_Nil)
next
  case (Cons c cs)
  show ?case
  proof (cases "match_at subject (c # cs)")
    case (Some m)
    have "findall subject (c # cs) \<noteq> []"
      by (subst findall.simps) (simp add: Some)
    moreover have "\<exists>pre t'. c # cs = pre @ t' \<and> match_at subject t' \<noteq> None"
      using Some by (intro exI [of _ "[]"] exI [of _ "c # cs"]) simp
    ultimately show ?thesis by simp
  next
    case None
    have "findall subject (c # cs) = findall subject cs"
      by (subst findall.simps) (simp add: None)
    moreover have "(\<exists>pre t'. c # cs = pre @ t' \<and> match_at subject t' \<noteq> None) \<longleftrightarrow>
                   (\<exists>pre t'. cs = pre @ t' \<and> match_at subject t' \<noteq> None)"
    proof
      assume "\<exists>pre t'. c # cs = pre @ t' \<and> match_at subject t' \<noteq> None"
      then obtain pre t' where e: "c # cs = pre @ t'" and m: "match_at subject t' \<noteq> None"
        by blast
      from e m None obtain pre' where "pre = c # pre'"
        by (cases pre) auto
      with e m show "\<exists>pre t'. cs = pre @ t' \<and> match_at subject t' \<noteq> None"
        by auto
    next
      assume "\<exists>pre t'. cs = pre @ t' \<and> match_at subject t' \<noteq> None"
      then obtain pre t' where "cs = pre @ t'" and m: "match_at subject t' \<noteq> None"
        by blast
      then have "c # cs = (c # pre) @ t'" by simp
      with m show "\<exists>pre t'. c # cs = pre @ t' \<and> match_at subject t' \<noteq> None"
        by blast
    qed
    ultimately show ?thesis
      using Cons.IH by simp
  qed
qed

lemma findall_nonempty_pattern:
  "findall subject t \<noteq> [] \<longleftrightarrow>
     (\<exists>pre sp ds post. t = pre @ subject @ sp @ ds @ post \<and> (sp = [] \<or> sp = '' '') \<and>
        ds \<noteq> [] \<and> (\<forall>d \<in> set ds. is_digit d))"
  (is "?L \<longleftrightarrow> ?R")
proof
  assume ?L
  then obtain pre t' m where t: "t = pre @ t'" and m: "match_at subject t' = Some m"
    unfolding findall_nonempty_iff by auto
  from match_at_Some_decompose [OF m] t show ?R
    by blast
next
  assume ?R
  then obtain pre sp ds post where t: "t = pre @ subject @ sp @ ds @ post"
    and c: "sp = [] \<or> sp = '' ''" "ds \<noteq> []" "\<forall>d \<in> set ds. is_digit d"
    by blast
  from match_at_compose [OF c] t show ?L
    unfolding findall_nonempty_iff by blast
qed

lemma is_related_to_a_bill_pattern:
  "is_related_to_a_bill event_text \<longleftrightarrow>
     (\<exists>subject \<in> set subjects. \<exists>pre sp ds post.
        event_text = pre @ subject @ sp @ ds @ post \<and> (sp = [] \<or> sp = '' '') \<and>
        ds \<noteq> [] \<and> (\<forall>d \<in> set ds. is_digit d))"
  by (simp add: is_related_to_a_bill_def findall_nonempty_pattern)

text \<open>
  Claim C7. \<open>is_related_to_a_bill\<close> holds of a text if and only if the text contains,
  for one of the subjects PLS, PLC and PEC, the subject, then no space or one space, then
  one digit or more. So it holds of every text that contains \<open>PLS 123\<close>, of every text
  that contains \<open>PEC456\<close>, and not of the text \<open>PLX 123\<close>.
\<close>

theorem is_related_to_a_bill_iff:
  "(is_related_to_a_bill event_text \<longleftrightarrow>
     (\<exists>subject \<in> set subjects. \<exists>pre sp ds post.
        event_text = pre @ subject @ sp @ ds @ post \<and> (sp = [] \<or> sp = '' '') \<and>
        ds \<noteq> [] \<and> (\<forall>d \<in> set ds. is_digit d))) \<and>
   set subjects = {''PLS'', ''PLC'', ''PEC''} \<and>
   is_related_to_a_bill (before @ ''PLS 123'' @ after) \<and>
   is_related_to_a_bill (before @ ''PEC456'' @ after) \<and>
   \<not> is_related_to_a_bill ''PLX 123''"
proof -
  have a: "is_related_to_a_bill (before @ ''PLS 123'' @ after)"
    unfolding is_related_to_a_bill_pattern
    by (intro bexI [of _ "''PLS''"] exI [of _ before] exI [of _ "'' ''"] exI [of _ "''123''"]
          exI [of _ after]) (simp_all add: subjects_def is_digit_def)
  have b: "is_related_to_a_bill (before @ ''PEC456'' @ after)"
    unfolding is_related_to_a_bill_pattern
    by (intro bexI [of _ "''PEC''"] exI [of _ before] exI [of _ "[]"] exI [of _ "''456''"]
          exI [of _ after]) (simp_all add: subjects_def is_digit_def)
  have c: "\<not> is_related_to_a_bill ''PLX 123''"
    by code_simp
  have d: "set subjects = {''PLS'', ''PLC'', ''PEC''}"
    by (simp add: subjects_def)
  from is_related_to_a_bill_pattern [of event_text] a b c d show ?thesis
    by blast
qed

theorem is_related_to_a_bill_iff_witness:
  "is_related_to_a_bill ''Item 1 - PLS 123/2019'' \<and> is_related_to_a_bill ''(PEC456)''"
  using is_related_to_a_bill_iff [of undefined "''Item 1 - ''" "''/2019''"]
    is_related_to_a_bill_iff [of undefined "''(''" "'')''"]
  by simp

section \<open>The agenda: the description of an event\<close>

lemma join_Cons_Nil: "join sep (x # xs) = [] \<Longrightarrow> x = []"
  by (cases xs) auto

lemma join_snoc:
  "join sep (xs @ [x]) = (if xs = [] then x else join sep xs @ sep @ x)"
  by (induction sep xs rule: join.induct) auto

lemma parse_invitees_line: "l \<in> set (parse_invitees event) \<Longrightarrow> l \<noteq> []"
  by (auto simp: parse_invitees_def Let_def)

lemma fragment_invitees_empty: "fragment_invitees event = [] \<longleftrightarrow> parse_invitees event = []"
proof (cases "parse_invitees event")
  case Nil
  then show ?thesis by (simp add: fragment_invitees_def)
next
  case (Cons l ls)
  then have "l \<noteq> []"
    using parse_invitees_line [of l event] by simp
  with Cons show ?thesis
    by (auto simp: fragment_invitees_def dest: join_Cons_Nil)
qed

lemma heading_nonempty:
  "heading_objective \<noteq> []" "heading_items \<noteq> []" "heading_ps \<noteq> []" "heading_invitees \<noteq> []"
  by (simp_all add: heading_objective_def heading_items_def heading_ps_def heading_invitees_def)

lemma parse_description_fragments:
  "parse_description event =
     join (newline @ newline) (filter (\<lambda>text. text \<noteq> [])
       [if fragment_objective event \<noteq> [] then heading_objective @ fragment_objective event else [],
        if fragment_items event \<noteq> [] then heading_items @ fragment_items event else [],
        if fragment_ps event \<noteq> [] then heading_ps @ fragment_ps event else [],
        if fragment_invitees event \<noteq> [] then heading_invitees @ fragment_invitees event else []])"
proof -
  have inv:
    "(if parse_invitees event \<noteq> [] then heading_invitees @ join newline (parse_invitees event)
      else []) =
     (if fragment_invitees event \<noteq> [] then heading_invitees @ fragment_invitees event else [])"
    using fragment_invitees_empty [of event] by (simp add: fragment_invitees_def)
  show ?thesis
    unfolding parse_description_def Let_def inv
    unfolding fragment_objective_def [symmetric] fragment_items_def [symmetric]
      fragment_ps_def [symmetric]
    by (intro arg_cong [where f = "join (newline @ newline)"] arg_cong [where f = "filter _"]) simp
qed

lemma parse_description_spec:
  "parse_description event =
     description_spec (fragment_objective event) (fragment_items event)
       (fragment_ps event) (fragment_invitees event)"
  unfolding parse_description_fragments description_spec_def
  by (simp add: heading_nonempty)

text \<open>
  Claim C8. The description that \<open>parse_description\<close> composes is the one of the spec:
  the non-empty fragments, each under its heading, joined by a blank line, in the order
  objective, items, observations, invitees. With the objective \<open>Discuss budget\<close> and no
  other fragment it is the heading \<open>**Finalidade**\<close>, a newline and the objective; with
  objective, items and invitees and no observations it is these three sections.
\<close>

theorem parse_description_sections:
  "parse_description event =
     description_spec (fragment_objective event) (fragment_items event)
       (fragment_ps event) (fragment_invitees event) \<and>
   (fragment_objective event = ''Discuss budget'' \<and> fragment_items event = [] \<and>
    fragment_ps event = [] \<and> fragment_invitees event = [] \<longrightarrow>
      parse_description event = ''**Finalidade**'' @ [CHR 0x0A] @ ''Discuss budget'') \<and>
   (fragment_objective event \<noteq> [] \<and> fragment_items event \<noteq> [] \<and>
    fragment_ps event = [] \<and> fragment_invitees event \<noteq> [] \<longrightarrow>
      parse_description event =
        heading_objective @ fragment_objective event @ newline @ newline @
        heading_items @ fragment_items event @ newline @ newline @
        heading_invitees @ fragment_invitees event)"
  unfolding parse_description_spec
  by (simp add: description_spec_def heading_objective_def newline_def)

theorem parse_description_sections_witness:
  "fragment_objective example_event = ''Discuss budget'' \<and>
   fragment_items example_event = [] \<and> fragment_ps example_event = [] \<and>
   fragment_invitees example_event = [] \<and>
   parse_description example_event = ''**Finalidade**'' @ [CHR 0x0A] @ ''Discuss budget''"
proof -
  have f: "fragment_objective example_event = ''Discuss budget''"
    "fragment_items example_event = []" "fragment_ps example_event = []"
    "fragment_invitees example_event = []"
    by code_simp+
  from parse_description_sections [of example_event] f show ?thesis
    by blast
qed

lemma parse_invitees_lines: "parse_invitees event = map invitee_line (invitee_nodes event)"
  by (simp add: parse_invitees_def invitee_line_def invitee_nodes_def Let_def)

lemma parse_description_invitees_last:
  assumes "parse_invitees event \<noteq> []"
  shows "\<exists>before. parse_description event =
           before @ heading_invitees @ join newline (parse_invitees event) \<and>
           (before = [] \<or> suffix (newline @ newline) before)"
proof -
  let ?inv = "heading_invitees @ fragment_invitees event"
  let ?three = "filter (\<lambda>text. text \<noteq> [])
       [if fragment_objective event \<noteq> [] then heading_objective @ fragment_objective event else [],
        if fragment_items event \<noteq> [] then heading_items @ fragment_items event else [],
        if fragment_ps event \<noteq> [] then heading_ps @ fragment_ps event else []]"
  from assms have ne: "fragment_invitees event \<noteq> []"
    by (simp add: fragment_invitees_empty)
  have "parse_description event = join (newline @ newline) (?three @ [?inv])"
    unfolding parse_description_fragments using ne by (simp add: heading_nonempty)
  then have d: "parse_description event =
      (if ?three = [] then ?inv else join (newline @ newline) ?three @ (newline @ newline) @ ?inv)"
    by (simp only: join_snoc)
  show ?thesis
  proof (cases "?three = []")
    case True
    with d have "parse_description event = [] @ heading_invitees @ join newline (parse_invitees event)"
      by (simp add: fragment_invitees_def)
    then show ?thesis by blast
  next
    case False
    with d have "parse_description event =
        (join (newline @ newline) ?three @ newline @ newline) @
        heading_invitees @ join newline (parse_invitees event)"
      by (simp add: fragment_invitees_def)
    moreover have "suffix (newline @ newline) (join (newline @ newline) ?three @ newline @ newline)"
      by (simp add: suffix_def)
    ultimately show ?thesis by blast
  qed
qed

text \<open>
  Claim C9 as the spec states it fails: the source puts a bullet, an asterisk and a
  space, in front of each invitee, so the line of the invitee Ana, Senadora, is
  \<open>* Ana (Senadora)\<close> and not \<open>Ana (Senadora)\<close>.
\<close>

theorem invitee_line_is_not_bare_name_and_role:
  "invitee_nodes example_event_invitees \<noteq> [] \<and>
   parse_invitees example_event_invitees = [''* Ana (Senadora)'', ''* Rui (Ministro)''] \<and>
   map invitee_line_spec (invitee_nodes example_event_invitees) =
     [''Ana (Senadora)'', ''Rui (Ministro)''] \<and>
   parse_invitees example_event_invitees \<noteq>
     map invitee_line_spec (invitee_nodes example_event_invitees)"
proof -
  have a: "invitee_nodes example_event_invitees \<noteq> []"
    by code_simp
  have b: "parse_invitees example_event_invitees = [''* Ana (Senadora)'', ''* Rui (Ministro)'']"
    by code_simp
  have c: "map invitee_line_spec (invitee_nodes example_event_invitees) =
     [''Ana (Senadora)'', ''Rui (Ministro)'']"
    by code_simp
  from a b c show ?thesis by simp
qed

lemma invitee_line_bullet:
  "has_name_and_role invitee \<Longrightarrow> invitee_line invitee = ''* '' @ invitee_line_spec invitee"
  by (auto simp: has_name_and_role_def invitee_line_def invitee_line_spec_def)

text \<open>
  Claim C9, amended. For an event with at least one invitee, the invitee fragment has one
  line for each invitee, in the order of the document; the line of an invitee that has a
  name and a role is a bullet (an asterisk and a space), the name, a space, and the role
  in parentheses; and the description ends with the heading of the invitees followed by
  these lines, one invitee per line, at its start or after a blank line.
\<close>

theorem invitees_rendered_as_bullet_lines:
  assumes "invitee_nodes event \<noteq> []"
  shows
    "length (parse_invitees event) = length (invitee_nodes event) \<and>
     (\<forall>i < length (invitee_nodes event).
        has_name_and_role (invitee_nodes event ! i) \<longrightarrow>
        parse_invitees event ! i = ''* '' @ invitee_line_spec (invitee_nodes event ! i)) \<and>
     ((\<forall>invitee \<in> set (invitee_nodes event). has_name_and_role invitee) \<longrightarrow>
        parse_invitees event =
          map (\<lambda>invitee. ''* '' @ invitee_line_spec invitee) (invitee_nodes event)) \<and>
     fragment_invitees event = join newline (parse_invitees event) \<and>
     (\<exists>before. parse_description event =
        before @ heading_invitees @ join newline (parse_invitees event) \<and>
        (before = [] \<or> suffix (newline @ newline) before))"
proof -
  from assms have "parse_invitees event \<noteq> []"
    by (simp add: parse_invitees_lines)
  from parse_description_invitees_last [OF this] show ?thesis
    by (simp add: parse_invitees_lines fragment_invitees_def invitee_line_bullet)
qed

theorem invitees_rendered_as_bullet_lines_witness:
  "invitee_nodes example_event_invitees \<noteq> [] \<and>
   list_all has_name_and_role (invitee_nodes example_event_invitees) \<and>
   parse_invitees example_event_invitees = [''* Ana (Senadora)'', ''* Rui (Ministro)''] \<and>
   (\<exists>before. parse_description example_event_invitees =
      before @ heading_invitees @ join newline [''* Ana (Senadora)'', ''* Rui (Ministro)''] \<and>
      (before = [] \<or> suffix (newline @ newline) before))"
proof -
  have h: "invitee_nodes example_event_invitees \<noteq> []"
    by code_simp
  have n: "list_all has_name_and_role (invitee_nodes example_event_invitees)"
    by code_simp
  have v: "map (\<lambda>invitee. ''* '' @ invitee_line_spec invitee)
             (invitee_nodes example_event_invitees) =
      [''* Ana (Senadora)'', ''* Rui (Ministro)'']"
    by code_simp
  from n have "\<forall>invitee \<in> set (invitee_nodes example_event_invitees). has_name_and_role invitee"
    by (simp add: list_all_iff)
  with invitees_rendered_as_bullet_lines [OF h]
  have "parse_invitees example_event_invitees = [''* Ana (Senadora)'', ''* Rui (Ministro)'']"
    and "\<exists>before. parse_description example_event_invitees =
        before @ heading_invitees @ join newline (parse_invitees example_event_invitees) \<and>
        (before = [] \<or> suffix (newline @ newline) before)"
    unfolding v by blast+
  with h n show ?thesis by simp
qed

section \<open>The manifest stage\<close>

lemma walk_prefix: "walk q n = map (\<lambda>(p, x). (q @ p, x)) (walk [] n)"
proof (induction n arbitrary: q)
  case (Txt t)
  show ?case by simp
next
  case (Elem name cs)
  have step: "walk (q @ [Child name]) c = map (\<lambda>(p, x). (q @ p, x)) (walk [Child name] c)"
    if "c \<in> set cs" for c
  proof -
    have "walk (q @ [Child name]) c = map (\<lambda>(p, x). ((q @ [Child name]) @ p, x)) (walk [] c)"
      using Elem.IH [OF that] .
    moreover have "walk [Child name] c = map (\<lambda>(p, x). ([Child name] @ p, x)) (walk [] c)"
      using Elem.IH [OF that] .
    ultimately show ?thesis
      by (simp add: split_def)
  qed
  have "concat (map (walk (q @ [Child name])) cs) =
        concat (map (\<lambda>c. map (\<lambda>(p, x). (q @ p, x)) (walk [Child name] c)) cs)"
    using step by (simp cong: map_cong)
  then show ?case
    by (simp add: map_concat comp_def)
qed

lemma walk_below:
  "(pe, e) \<in> set (walk q n) \<Longrightarrow> (p, x) \<in> set (below e) \<Longrightarrow> (pe @ p, x) \<in> set (walk q n)"
proof (induction n arbitrary: q)
  case (Txt t)
  then show ?case by simp
next
  case (Elem name cs)
  from Elem.prems(1) consider
    (here) "pe = q @ [Child name]" "e = Elem name cs" |
    (deeper) c where "c \<in> set cs" "(pe, e) \<in> set (walk (q @ [Child name]) c)"
    by auto
  then show ?case
  proof cases
    case here
    with Elem.prems(2) obtain c where c: "c \<in> set cs" and "(p, x) \<in> set (walk [] c)"
      by auto
    then have "(pe @ p, x) \<in> set (walk pe c)"
      by (subst walk_prefix) force
    with c here show ?thesis by auto
  next
    case deeper
    from Elem.IH [OF deeper(1) deeper(2) Elem.prems(2)] deeper(1) show ?thesis
      by auto
  qed
qed

lemma extract_first_Some_iff:
  "extract_first sels \<noteq> None \<longleftrightarrow> (\<exists>s \<in> set sels. node_text (sel_node s) \<noteq> [])"
proof -
  have "extract_first sels \<noteq> None \<longleftrightarrow> extract_all sels \<noteq> []"
    by (simp add: extract_first_def split: list.splits)
  then show ?thesis
    by (auto simp: extract_all_def)
qed

text \<open>An entry that has a type tag of its own gives the document one.\<close>

lemma own_tag_is_document_tag:
  assumes "entry \<in> set (response_xpath doc (Abs [Child ''Text'']))"
    and "extract_first (select entry (Rel ps)) \<noteq> None"
  shows "extract_first (select entry (Abs ps)) \<noteq> None"
proof -
  from assms(1) obtain pe e where e: "(pe, e) \<in> set (walk [] doc)"
    and sel: "entry = \<lparr>sel_root = doc, sel_node = e\<rparr>"
    by (auto simp: response_xpath_def)
  from assms(2) obtain x where x: "(ps, x) \<in> set (below e)" and t: "node_text x \<noteq> []"
    unfolding extract_first_Some_iff by (auto simp: sel)
  from walk_below [OF e x] have "(pe @ ps, x) \<in> set (walk [] doc)" .
  moreover have "suffix ps (pe @ ps)"
    by (simp add: suffix_def)
  ultimately have "\<lparr>sel_root = doc, sel_node = x\<rparr> \<in> set (select entry (Abs ps))"
    by (force simp: sel)
  with t show ?thesis
    unfolding extract_first_Some_iff by force
qed

text \<open>An absolute path gives every entry what it gives the response.\<close>

lemma document_tag_same:
  assumes "entry \<in> set (response_xpath doc path)"
  shows "select entry (Abs ps) = response_xpath doc (Abs ps)"
  using assms by (cases path) (auto simp: response_xpath_def)

lemma pending_of_result:
  "pending_of sels =
     (if \<forall>entry \<in> set sels.
           extract_first (select entry (Abs [Child ''TipoDocumento'', TextNode])) \<noteq> None
      then Inr [] else Inl AttributeError)"
proof (induction sels)
  case Nil
  show ?case by simp
next
  case (Cons entry rest)
  show ?case
  proof (cases "extract_first (select entry (Abs [Child ''TipoDocumento'', TextNode]))")
    case None
    then show ?thesis by simp
  next
    case (Some tag)
    then show ?thesis
      using Cons.IH by (simp del: select.simps)
  qed
qed

lemma parse_texts_result:
  "parse_texts accepts matchers iter response =
     (if \<forall>entry \<in> set (response_xpath (resp_body response) (Abs [Child ''Text''])).
           extract_first (select entry (Abs [Child ''TipoDocumento'', TextNode])) \<noteq> None
      then next_pdf_or_item accepts matchers iter response (Some [])
      else Inl AttributeError)"
  unfolding parse_texts_def pending_of_result by (simp del: select.simps not_None_eq)

text \<open>
  The scan raises exactly when the manifest has a document entry and the document has no
  type tag text at all.
\<close>

lemma parse_texts_raises_iff:
  "parse_texts accepts matchers iter response = Inl AttributeError \<longleftrightarrow>
     response_xpath (resp_body response) (Abs [Child ''Text'']) \<noteq> [] \<and>
     extract_first (response_xpath (resp_body response)
        (Abs [Child ''TipoDocumento'', TextNode])) = None"
proof -
  let ?entries = "response_xpath (resp_body response) (Abs [Child ''Text''])"
  let ?tag = "extract_first (response_xpath (resp_body response)
        (Abs [Child ''TipoDocumento'', TextNode]))"
  let ?tagged = "\<forall>entry \<in> set ?entries.
           extract_first (select entry (Abs [Child ''TipoDocumento'', TextNode])) \<noteq> None"
  have tagged: "?tagged \<longleftrightarrow> (?entries = [] \<or> ?tag \<noteq> None)"
    using document_tag_same [of _ "resp_body response" "Abs [Child ''Text'']"]
    by (cases ?entries) (auto simp del: select.simps)
  show ?thesis
  proof (cases ?tagged)
    case True
    then have "parse_texts accepts matchers iter response =
        next_pdf_or_item accepts matchers iter response (Some [])"
      unfolding parse_texts_result by (rule if_P)
    then have "parse_texts accepts matchers iter response \<noteq> Inl AttributeError"
      by (simp add: next_pdf_or_item_final)
    with True tagged show ?thesis by blast
  next
    case False
    then have "parse_texts accepts matchers iter response = Inl AttributeError"
      unfolding parse_texts_result by (rule if_not_P)
    with False tagged show ?thesis by blast
  qed
qed

lemma parse_bill_then_authorship:
  "\<exists>r. parse_authorship
          \<lparr>resp_body = authorship, resp_meta = req_meta (parse_bill ck detail)\<rparr> = Inr r \<and>
       palavras_chave (m_bill (req_meta r)) =
         palavras_chave (m_bill (req_meta (parse_bill ck detail)))"
  by (simp add: parse_authorship_def parse_bill_def Let_def)

lemma parse_bill_keywords:
  "\<exists>seed. palavras_chave seed = {} \<and>
     m_bill (req_meta (parse_bill ck detail)) =
       ck (ck seed (extract_first (response_xpath (resp_body detail)
                      (Abs [Child ''EmentaMateria'', TextNode]))))
          (extract_first (response_xpath (resp_body detail)
                      (Abs [Child ''IndexacaoMateria'', TextNode])))"
  unfolding parse_bill_def Let_def
  by (rule exI, rule conjI [rotated], simp, simp)

lemma example_manifest_entries:
  "\<forall>entry \<in> set (response_xpath example_manifest (Abs [Child ''Text''])).
      extract_first (select entry (Rel [Child ''TipoDocumento'', TextNode])) \<noteq> None"
  "\<forall>entry \<in> set (response_xpath example_manifest (Abs [Child ''Text''])).
      extract_first (select entry (Abs [Child ''TipoDocumento'', TextNode])) \<noteq> None"
  by code_simp+

lemma example_keywords:
  "join '', '' (sorted_list_of_set {''saude'', ''educacao''}) = ''educacao, saude''"
  by code_simp

text \<open>
  Claim C3 fails on the code. On a manifest with a PDF entry and an HTML entry the
  contract of the spec queues the URL of the PDF entry; \<open>parse_texts\<close> queues nothing
  and emits the bill at once.
\<close>

theorem parse_texts_drops_the_pdf_entry:
  "pending_spec example_manifest = [Some ''http://legis.senado.leg.br/doc/1.pdf''] \<and>
   pending_of (response_xpath example_manifest (Abs [Child ''Text''])) = Inr [] \<and>
   parse_texts has_scheme [()] sorted_list_of_set
       \<lparr>resp_body = example_manifest, resp_meta = example_meta example_bill None\<rparr> =
     Inr (Bill (flatten sorted_list_of_set example_bill))"
proof -
  have a: "pending_spec example_manifest = [Some ''http://legis.senado.leg.br/doc/1.pdf'']"
    by code_simp
  have b: "pending_of (response_xpath example_manifest (Abs [Child ''Text''])) = Inr []"
    by code_simp
  have c: "parse_texts has_scheme [()] sorted_list_of_set
       \<lparr>resp_body = example_manifest, resp_meta = example_meta example_bill None\<rparr> =
     Inr (Bill (flatten sorted_list_of_set example_bill))"
    using example_manifest_entries(2)
    by (simp add: parse_texts_result next_pdf_or_item_final example_meta_def example_bill_def
          example_keywords del: select.simps)
  from a b c show ?thesis by simp
qed

text \<open>
  Claim C4 fails on the code. On a manifest whose only entry has no type tag, the filter
  reads the attribute \<open>lower\<close> of \<open>None\<close> and \<open>parse_texts\<close> raises.
\<close>

theorem parse_texts_raises_without_type_tag:
  "parse_texts accepts matchers iter \<lparr>resp_body = example_manifest_untagged, resp_meta = m\<rparr> =
     Inl AttributeError"
proof -
  have "response_xpath example_manifest_untagged (Abs [Child ''Text'']) \<noteq> []"
    by code_simp
  moreover have "extract_first (response_xpath example_manifest_untagged
        (Abs [Child ''TipoDocumento'', TextNode])) = None"
    by code_simp
  ultimately show ?thesis
    by (simp add: parse_texts_raises_iff)
qed

text \<open>
  Claim C10. Take a manifest in which every document entry has a type tag text of its
  own. Then for every entry the filter compares the method \<open>lower\<close> bound to a tag with
  the string \<open>pdf\<close>, which is false; the queue is empty; \<open>parse_texts\<close> does not raise
  and finalises at once, never with a request for a PDF; and a bill that went through
  the detail, authorship and manifest stages is emitted or dropped on the keywords
  collected from its description and its raw keyword index alone.
\<close>

theorem manifest_queue_is_always_empty:
  assumes "\<forall>entry \<in> set (response_xpath (resp_body response) (Abs [Child ''Text''])).
             extract_first (select entry (Rel [Child ''TipoDocumento'', TextNode])) \<noteq> None"
  shows
    "(\<forall>entry \<in> set (response_xpath (resp_body response) (Abs [Child ''Text''])).
        \<exists>tag. getattr_lower (extract_first (select entry (Abs [Child ''TipoDocumento'', TextNode]))) =
                Inr (BoundMethod tag ''lower'') \<and>
              \<not> py_eq (BoundMethod tag ''lower'') (Str ''pdf'')) \<and>
     pending_of (response_xpath (resp_body response) (Abs [Child ''Text''])) = Inr [] \<and>
     parse_texts accepts matchers iter response =
       Inr (if matchers = [] \<or>
               join '', '' (iter (palavras_chave (m_bill (resp_meta response)))) \<noteq> []
            then Bill (flatten iter (m_bill (resp_meta response))) else NoItem) \<and>
     (\<exists>out. parse_texts accepts matchers iter response = Inr out \<and> \<not> is_request out) \<and>
     (\<exists>seed kws.
        palavras_chave seed = {} \<and>
        kws = palavras_chave
          (ck (ck seed (extract_first (response_xpath (resp_body detail)
                          (Abs [Child ''EmentaMateria'', TextNode]))))
              (extract_first (response_xpath (resp_body detail)
                          (Abs [Child ''IndexacaoMateria'', TextNode])))) \<and>
        (\<exists>item. palavras_chave item = join '', '' (iter kws) \<and>
           through_manifest accepts ck matchers iter detail authorship (resp_body response) =
             Inr (if matchers = [] \<or> join '', '' (iter kws) \<noteq> [] then Bill item else NoItem)))"
proof -
  let ?entries = "response_xpath (resp_body response) (Abs [Child ''Text''])"
  have tags: "\<forall>entry \<in> set ?entries.
      extract_first (select entry (Abs [Child ''TipoDocumento'', TextNode])) \<noteq> None"
    using assms own_tag_is_document_tag [of _ "resp_body response"] by blast
  have a: "\<forall>entry \<in> set ?entries.
        \<exists>tag. getattr_lower (extract_first (select entry (Abs [Child ''TipoDocumento'', TextNode]))) =
                Inr (BoundMethod tag ''lower'') \<and>
              \<not> py_eq (BoundMethod tag ''lower'') (Str ''pdf'')"
  proof
    fix entry assume "entry \<in> set ?entries"
    with tags obtain tag where
      "extract_first (select entry (Abs [Child ''TipoDocumento'', TextNode])) = Some tag"
      by blast
    then show "\<exists>tag. getattr_lower (extract_first (select entry (Abs [Child ''TipoDocumento'', TextNode]))) =
                Inr (BoundMethod tag ''lower'') \<and>
              \<not> py_eq (BoundMethod tag ''lower'') (Str ''pdf'')"
      by (simp del: select.simps)
  qed
  have b: "pending_of ?entries = Inr []"
    using tags by (simp add: pending_of_result del: select.simps)
  have c: "parse_texts accepts matchers iter r =
       Inr (if matchers = [] \<or> join '', '' (iter (palavras_chave (m_bill (resp_meta r)))) \<noteq> []
            then Bill (flatten iter (m_bill (resp_meta r))) else NoItem)"
    if "resp_body r = resp_body response" for r :: "(xml, meta) response"
    using tags that by (simp add: parse_texts_result next_pdf_or_item_final del: select.simps)
  have d: "\<exists>out. parse_texts accepts matchers iter response = Inr out \<and> \<not> is_request out"
    using c [of response] by simp
  obtain r where r: "parse_authorship
        \<lparr>resp_body = authorship, resp_meta = req_meta (parse_bill ck detail)\<rparr> = Inr r"
    and kr: "palavras_chave (m_bill (req_meta r)) =
        palavras_chave (m_bill (req_meta (parse_bill ck detail)))"
    using parse_bill_then_authorship [of authorship ck detail] by blast
  obtain seed where seed: "palavras_chave seed = {}"
    and sb: "m_bill (req_meta (parse_bill ck detail)) =
       ck (ck seed (extract_first (response_xpath (resp_body detail)
                      (Abs [Child ''EmentaMateria'', TextNode]))))
          (extract_first (response_xpath (resp_body detail)
                      (Abs [Child ''IndexacaoMateria'', TextNode])))"
    using parse_bill_keywords [of ck detail] by blast
  let ?kws = "palavras_chave (m_bill (req_meta (parse_bill ck detail)))"
  have "through_manifest accepts ck matchers iter detail authorship (resp_body response) =
      Inr (if matchers = [] \<or> join '', '' (iter ?kws) \<noteq> []
           then Bill (flatten iter (m_bill (req_meta r))) else NoItem)"
    using c [of "\<lparr>resp_body = resp_body response, resp_meta = req_meta r\<rparr>"] r kr
    by (simp add: through_manifest_def)
  moreover have "palavras_chave (flatten iter (m_bill (req_meta r))) = join '', '' (iter ?kws)"
    by (simp add: palavras_chave_flatten kr)
  ultimately have e: "\<exists>item. palavras_chave item = join '', '' (iter ?kws) \<and>
           through_manifest accepts ck matchers iter detail authorship (resp_body response) =
             Inr (if matchers = [] \<or> join '', '' (iter ?kws) \<noteq> [] then Bill item else NoItem)"
    by blast
  have f: "\<exists>seed kws.
        palavras_chave seed = {} \<and>
        kws = palavras_chave
          (ck (ck seed (extract_first (response_xpath (resp_body detail)
                          (Abs [Child ''EmentaMateria'', TextNode]))))
              (extract_first (response_xpath (resp_body detail)
                          (Abs [Child ''IndexacaoMateria'', TextNode])))) \<and>
        (\<exists>item. palavras_chave item = join '', '' (iter kws) \<and>
           through_manifest accepts ck matchers iter detail authorship (resp_body response) =
             Inr (if matchers = [] \<or> join '', '' (iter kws) \<noteq> [] then Bill item else NoItem))"
    using seed e unfolding sb by blast
  from a b c [of response] d f show ?thesis
    by blast
qed

theorem manifest_queue_is_always_empty_witness:
  "pending_of (response_xpath example_manifest (Abs [Child ''Text''])) = Inr [] \<and>
   parse_texts has_scheme [()] sorted_list_of_set
       \<lparr>resp_body = example_manifest,
        resp_meta = example_meta (example_bill\<lparr>palavras_chave := {}\<rparr>) None\<rparr> = Inr NoItem"
  using manifest_queue_is_always_empty [where response =
      "\<lparr>resp_body = example_manifest,
        resp_meta = example_meta (example_bill\<lparr>palavras_chave := {}\<rparr>) None\<rparr>"
      and matchers = "[()]" and iter = sorted_list_of_set and accepts = has_scheme]
    example_manifest_entries(1)
  by (simp add: example_meta_def del: select.simps)

end
